theory Spec2Isabelle
  imports Complex_Main "HOL-Library.Log_Nat"
begin

section \<open>The Quest screen capture tool: a model of quest_screen_cap.py\<close>

text \<open>
  The program drives the external \<open>adb\<close> executable through \<open>subprocess.run\<close>. The model
  threads a \<open>world\<close> through every operation: the chronological trace of what the program
  did to its environment (commands started, sleeps, printed lines) and the set of local
  files that completed \<open>adb pull\<close> commands have written. What \<open>adb\<close> answers is an input
  of the model, the \<open>bridge\<close>: a function from the number of commands started so far and
  the argument vector to the outcome of that call.
\<close>

subsection \<open>Python values, exceptions and strings\<close>

datatype exn_class =
    FileNotFoundError | CalledProcessError | KeyboardInterrupt | ValueError
  | ZeroDivisionError | OverflowError | UnidentifiedImageError | OtherException

text \<open>An exception object: its class and the text of \<open>str(e)\<close>.\<close>

datatype exn = Exn exn_class string

fun exn_cls :: "exn \<Rightarrow> exn_class" where
  "exn_cls (Exn c m) = c"

fun exn_str :: "exn \<Rightarrow> string" where
  "exn_str (Exn c m) = m"

text \<open>\<open>except Exception\<close> catches every class of the model but \<open>KeyboardInterrupt\<close>.\<close>

definition is_Exception :: "exn \<Rightarrow> bool" where
  "is_Exception e = (exn_cls e \<noteq> KeyboardInterrupt)"

text \<open>
  A \<open>string\<close> stands for a Python \<open>str\<close> over the code points 0 to 255. \<open>str.lower\<close> maps
  A to Z and the upper-case letters of the Latin-1 block to their lower-case forms.
\<close>

definition lower_char :: "char \<Rightarrow> char" where
  "lower_char c =
     (let n = (of_char c :: nat)
      in if (65 \<le> n \<and> n \<le> 90) \<or> (192 \<le> n \<and> n \<le> 222 \<and> n \<noteq> 215)
         then char_of (n + 32) else c)"

definition lower :: "string \<Rightarrow> string" where
  "lower s = map lower_char s"

definition endswith :: "string \<Rightarrow> string \<Rightarrow> bool" where
  "endswith s suf = (length suf \<le> length s \<and> drop (length s - length suf) s = suf)"

text \<open>\<open>os.path.join\<close> of two components, as \<open>posixpath\<close> computes it.\<close>

definition path_join :: "string \<Rightarrow> string \<Rightarrow> string" where
  "path_join a b =
     (if b \<noteq> [] \<and> hd b = CHR ''/'' then b
      else if a = [] \<or> last a = CHR ''/'' then a @ b
      else a @ ''/'' @ b)"

subsection \<open>The environment\<close>

text \<open>
  A Python float that the program can hold: the readings of the controls are never
  negative, so a finite value is a non-negative rational, next to infinity and NaN.
\<close>

datatype pyfloat = Fin rat | PInf | NaN

text \<open>
  An image object of the imaging library: its size (two Python integers, never negative),
  and whether its pixel data can be loaded. \<open>Image.open\<close> reads the header only, so an image whose data is truncated is
  opened all the same and fails when it is loaded (by \<open>resize\<close> or by the display).
\<close>

record image =
  img_width :: int
  img_height :: int
  intact :: bool

text \<open>
  What the program does to its environment: it starts a command, sleeps, prints a line,
  shows an image in the window, sets the status line, or asks the window toolkit to call
  \<open>update_display\<close> after some milliseconds.
\<close>

datatype event =
    Run "string list" | Sleep pyfloat | Print string
  | ShowImage image | Status string | After nat

text \<open>What a call of \<open>subprocess.run\<close> does: it raises, or the process exits with a
  return code and its standard output.\<close>

datatype outcome = Raises exn | Completed int string

type_synonym bridge = "nat \<Rightarrow> string list \<Rightarrow> outcome"

record world =
  trace :: "event list"
  files :: "string set"

fun is_Run :: "event \<Rightarrow> bool" where
  "is_Run (Run argv) = True"
| "is_Run e = False"

definition commands :: "world \<Rightarrow> event list" where
  "commands w = filter is_Run (trace w)"

definition emit :: "event \<Rightarrow> world \<Rightarrow> world" where
  "emit e w = w\<lparr>trace := trace w @ [e]\<rparr>"

definition print :: "string \<Rightarrow> world \<Rightarrow> world" where
  "print line w = emit (Print line) w"

text \<open>The one effect of the bridge on the local disk: \<open>adb pull remote local\<close> that exits
  with code 0 has written the local file.\<close>

definition pulled :: "string list \<Rightarrow> outcome \<Rightarrow> string set \<Rightarrow> string set" where
  "pulled argv out fs =
     (case out of
        Raises e \<Rightarrow> fs
      | Completed rc txt \<Rightarrow>
          if length argv = 4 \<and> argv ! 1 = ''pull'' \<and> rc = 0 then insert (argv ! 3) fs else fs)"

definition subprocess_run :: "bridge \<Rightarrow> string list \<Rightarrow> world \<Rightarrow> outcome \<times> world" where
  "subprocess_run adb argv w =
     (let out = adb (length (commands w)) argv
      in (out, (emit (Run argv) w)\<lparr>files := pulled argv out (files w)\<rparr>))"

text \<open>\<open>subprocess.run(..., check=True)\<close>: a non-zero return code raises
  \<open>CalledProcessError\<close>.\<close>

definition run_checked :: "bridge \<Rightarrow> string list \<Rightarrow> world \<Rightarrow> (exn + string) \<times> world" where
  "run_checked adb argv w =
     (case subprocess_run adb argv w of
        (Raises e, w') \<Rightarrow> (Inl e, w')
      | (Completed rc txt, w') \<Rightarrow>
          if rc = 0 then (Inr txt, w')
          else (Inl (Exn CalledProcessError ''Command returned non-zero exit status''), w'))"

subsection \<open>The session object\<close>

record session =
  device_ip :: "string option"
  adb_port :: int
  connected :: bool
  streaming :: bool
  output_folder :: string

datatype retval =
    RNone | RFalse | RTrue | RPath string | RInfo string string string

subsection \<open>take_screenshot\<close>

text \<open>The file name of a screenshot: the name given, or the time-stamped default when the
  name is \<open>None\<close> or empty; \<open>.png\<close> is appended unless the lower-cased name ends in it.
  \<open>stamp\<close> is \<open>datetime.now().strftime("%Y%m%d_%H%M%S")\<close>.\<close>

definition screenshot_name :: "string \<Rightarrow> string option \<Rightarrow> string" where
  "screenshot_name stamp filename =
     (let name = (case filename of
                    None \<Rightarrow> ''quest_screenshot_'' @ stamp @ ''.png''
                  | Some f \<Rightarrow> if f = [] then ''quest_screenshot_'' @ stamp @ ''.png'' else f)
      in if \<not> endswith (lower name) ''.png'' then name @ ''.png'' else name)"

definition screencap_cmd :: "string list" where
  "screencap_cmd = [''adb'', ''shell'', ''screencap'', ''-p'', ''/sdcard/screenshot.png'']"

definition pull_cmd :: "string \<Rightarrow> string list" where
  "pull_cmd full_path = [''adb'', ''pull'', ''/sdcard/screenshot.png'', full_path]"

definition rm_cmd :: "string list" where
  "rm_cmd = [''adb'', ''shell'', ''rm'', ''/sdcard/screenshot.png'']"

text \<open>The handler of \<open>take_screenshot\<close>: \<open>CalledProcessError\<close> is reported and turned into
  \<open>False\<close>; any other exception leaves the method.\<close>

definition screenshot_failed :: "exn \<Rightarrow> world \<Rightarrow> (exn + retval) \<times> world" where
  "screenshot_failed e w =
     (if exn_cls e = CalledProcessError
      then (Inr RFalse, print (''Error taking screenshot: '' @ exn_str e) w)
      else (Inl e, w))"

definition take_screenshot ::
  "bridge \<Rightarrow> string \<Rightarrow> session \<Rightarrow> string option \<Rightarrow> world \<Rightarrow> (exn + retval) \<times> world" where
  "take_screenshot adb stamp s filename w =
     (if \<not> connected s then (Inr RFalse, print ''Device not connected'' w)
      else
        let full_path = path_join (output_folder s) (screenshot_name stamp filename);
            w0 = print ''Taking screenshot...'' w
        in case run_checked adb screencap_cmd w0 of
             (Inl e, w1) \<Rightarrow> screenshot_failed e w1
           | (Inr out1, w1) \<Rightarrow>
               (case run_checked adb (pull_cmd full_path) w1 of
                  (Inl e, w2) \<Rightarrow> screenshot_failed e w2
                | (Inr out2, w2) \<Rightarrow>
                    (case run_checked adb rm_cmd w2 of
                       (Inl e, w3) \<Rightarrow> screenshot_failed e w3
                     | (Inr out3, w3) \<Rightarrow>
                         (Inr (RPath full_path),
                          print (''Screenshot saved as: '' @ full_path) w3))))"

subsection \<open>Commands started by one call, and a sample session\<close>

text \<open>The commands that a call started: the \<open>Run\<close> events added to the trace between the
  world before the call and the world after it.\<close>

definition issued :: "world \<Rightarrow> world \<Rightarrow> event list" where
  "issued w w' = filter is_Run (drop (length (trace w)) (trace w'))"

definition s_usb :: session where
  "s_usb = \<lparr>device_ip = None, adb_port = 5555, connected = True, streaming = False,
            output_folder = ''/out''\<rparr>"

definition w_init :: world where
  "w_init = \<lparr>trace = [], files = {}\<rparr>"

subsection \<open>More string functions\<close>

text \<open>\<open>str(n)\<close> of a non-negative integer, of an integer, and the format \<open>{n:06d}\<close>.\<close>

fun str_nat :: "nat \<Rightarrow> string" where
  "str_nat n =
     (if n < 10 then [char_of (48 + n)] else str_nat (n div 10) @ [char_of (48 + n mod 10)])"

declare str_nat.simps [simp del]

definition str_int :: "int \<Rightarrow> string" where
  "str_int i = (if i < 0 then ''-'' @ str_nat (nat (- i)) else str_nat (nat i))"

definition zero_pad6 :: "nat \<Rightarrow> string" where
  "zero_pad6 n = replicate (6 - length (str_nat n)) (CHR ''0'') @ str_nat n"

text \<open>The characters that \<open>str.strip()\<close> removes, among the code points 0 to 255.\<close>

definition is_space :: "char \<Rightarrow> bool" where
  "is_space c =
     (let n = (of_char c :: nat)
      in (9 \<le> n \<and> n \<le> 13) \<or> (28 \<le> n \<and> n \<le> 32) \<or> n = 133 \<or> n = 160)"

definition strip :: "string \<Rightarrow> string" where
  "strip s = rev (dropWhile is_space (rev (dropWhile is_space s)))"






text \<open>Python's truth value of \<open>self.device_ip\<close>: \<open>None\<close> and the empty string are false.\<close>

definition truthy :: "string option \<Rightarrow> bool" where
  "truthy x = (case x of None \<Rightarrow> False | Some v \<Rightarrow> v \<noteq> [])"

subsection \<open>check_adb_installed and connect_device\<close>








subsection \<open>get_device_info\<close>

definition get_device_info :: "bridge \<Rightarrow> session \<Rightarrow> world \<Rightarrow> (exn + retval) \<times> world" where
  "get_device_info adb s w =
     (if \<not> connected s then (Inr RNone, print ''Device not connected'' w)
      else
        let failed = (\<lambda>e w'. if is_Exception e
                              then (Inr RNone, print (''Error getting device info: '' @ exn_str e) w')
                              else (Inl e, w'))
        in case subprocess_run adb [''adb'', ''shell'', ''getprop'', ''ro.product.model''] w of
             (Raises e, w1) \<Rightarrow> failed e w1
           | (Completed rc1 out1, w1) \<Rightarrow>
               (case subprocess_run adb
                       [''adb'', ''shell'', ''getprop'', ''ro.build.version.release''] w1 of
                  (Raises e, w2) \<Rightarrow> failed e w2
                | (Completed rc2 out2, w2) \<Rightarrow>
                    (case subprocess_run adb [''adb'', ''shell'', ''wm'', ''size''] w2 of
                       (Raises e, w3) \<Rightarrow> failed e w3
                     | (Completed rc3 out3, w3) \<Rightarrow>
                         (Inr (RInfo (strip out1) (strip out2) (strip out3)),
                          print (''  '' @ strip out3)
                            (print (''  Android Version: '' @ strip out2)
                              (print (''  Model: '' @ strip out1)
                                (print ''Device Info:'' w3)))))))"

subsection \<open>start_screen_recording\<close>

definition recording_name :: "string \<Rightarrow> string option \<Rightarrow> string" where
  "recording_name stamp filename =
     (let name = (case filename of
                    None \<Rightarrow> ''quest_recording_'' @ stamp @ ''.mp4''
                  | Some f \<Rightarrow> if f = [] then ''quest_recording_'' @ stamp @ ''.mp4'' else f)
      in if \<not> endswith (lower name) ''.mp4'' then name @ ''.mp4'' else name)"

definition recording_failed :: "exn \<Rightarrow> world \<Rightarrow> (exn + retval) \<times> world" where
  "recording_failed e w =
     (if exn_cls e = CalledProcessError
      then (Inr RFalse, print (''Error recording screen: '' @ exn_str e) w)
      else (Inl e, w))"

text \<open>\<open>Popen(...)\<close> followed by \<open>wait()\<close> runs the recording command to its end; its return
  code is not looked at.\<close>

definition start_screen_recording ::
  "bridge \<Rightarrow> string \<Rightarrow> session \<Rightarrow> string option \<Rightarrow> int \<Rightarrow> world \<Rightarrow> (exn + retval) \<times> world" where
  "start_screen_recording adb stamp s filename duration w =
     (if \<not> connected s then (Inr RFalse, print ''Device not connected'' w)
      else
        let full_path = path_join (output_folder s) (recording_name stamp filename);
            w0 = print (''Starting screen recording for '' @ str_int duration @ '' seconds...'') w
        in case subprocess_run adb
                  [''adb'', ''shell'', ''screenrecord'', ''--time-limit='' @ str_int duration,
                   ''/sdcard/recording.mp4''] w0 of
             (Raises e, w1) \<Rightarrow> recording_failed e w1
           | (Completed rc out1, w1) \<Rightarrow>
               (case run_checked adb [''adb'', ''pull'', ''/sdcard/recording.mp4'', full_path]
                       (print ''Recording complete, downloading...'' w1) of
                  (Inl e, w2) \<Rightarrow> recording_failed e w2
                | (Inr out2, w2) \<Rightarrow>
                    (case run_checked adb [''adb'', ''shell'', ''rm'', ''/sdcard/recording.mp4''] w2 of
                       (Inl e, w3) \<Rightarrow> recording_failed e w3
                     | (Inr out3, w3) \<Rightarrow>
                         (Inr (RPath full_path),
                          print (''Recording saved as: '' @ full_path) w3))))"

subsection \<open>Python floats\<close>

text \<open>
  Python's \<open>float\<close> is the IEEE 754 binary64 format, and every operation returns the exact
  result rounded to the nearest representable value, ties to the even significand.
  \<open>ilog2 x\<close> is the exponent of a positive rational: the integer \<open>e\<close> with
  \<open>2 ^ e \<le> x < 2 ^ (e + 1)\<close>.
\<close>

definition ilog2 :: "rat \<Rightarrow> int" where
  "ilog2 x = (let (a, b) = quotient_of x; d = bitlen a - bitlen b
              in if 2 powi d \<le> x then d else d - 1)"

definition round_half_even :: "rat \<Rightarrow> int" where
  "round_half_even y =
     (let f = \<lfloor>y\<rfloor>; r = y - of_int f
      in if r < 1 / 2 then f else if 1 / 2 < r then f + 1 else if even f then f else f + 1)"

text \<open>The double nearest to a non-negative rational. The spacing of the doubles around
  \<open>x\<close> is \<open>2 ^ (e - 52)\<close>, where \<open>e\<close> is the exponent of \<open>x\<close>, at least \<open>-1022\<close> (below
  that the subnormal numbers are evenly spaced); a result whose exponent is 1024 or more
  (that is, \<open>2 ^ 1024\<close> or more) is infinity.\<close>

definition to_double :: "rat \<Rightarrow> pyfloat" where
  "to_double x =
     (if x \<le> 0 then Fin 0
      else let e = max (ilog2 x) (- 1022);
               q = 2 powi (e - 52);
               y = of_int (round_half_even (x / q)) * q
           in if 1024 \<le> ilog2 y then PInf else Fin y)"

text \<open>The conversion of an \<open>int\<close> operand that is not negative to \<open>float\<close>.\<close>

definition float_of_int :: "int \<Rightarrow> exn + pyfloat" where
  "float_of_int n =
     (case to_double (of_int n) of
        PInf \<Rightarrow> Inl (Exn OverflowError ''int too large to convert to float'')
      | v \<Rightarrow> Inr v)"

definition float_of_nat :: "nat \<Rightarrow> exn + pyfloat" where
  "float_of_nat n = float_of_int (int n)"

fun fmul :: "pyfloat \<Rightarrow> pyfloat \<Rightarrow> pyfloat" where
  "fmul (Fin a) (Fin b) = to_double (a * b)"
| "fmul (Fin a) PInf = (if a = 0 then NaN else PInf)"
| "fmul PInf (Fin b) = (if b = 0 then NaN else PInf)"
| "fmul PInf PInf = PInf"
| "fmul NaN y = NaN"
| "fmul x NaN = NaN"

text \<open>\<open>1.0 / x\<close>.\<close>

fun one_over :: "pyfloat \<Rightarrow> exn + pyfloat" where
  "one_over (Fin x) =
     (if x = 0 then Inl (Exn ZeroDivisionError ''float division by zero'')
      else Inr (to_double (1 / x)))"
| "one_over PInf = Inr (Fin 0)"
| "one_over NaN = Inr NaN"

text \<open>\<open>int(x)\<close> truncates; the values here are not negative.\<close>

fun py_int :: "pyfloat \<Rightarrow> exn + int" where
  "py_int (Fin x) = Inr \<lfloor>x\<rfloor>"
| "py_int PInf = Inl (Exn OverflowError ''cannot convert float infinity to integer'')"
| "py_int NaN = Inl (Exn ValueError ''cannot convert float NaN to integer'')"

subsection \<open>Reading the fps and scale controls\<close>

text \<open>\<open>str.isdigit\<close>: the string is not empty and every character is a digit. Among the
  code points 0 to 255 the digits are 0 to 9 and the superscripts 2, 3 and 1.\<close>

definition is_ascii_digit :: "char \<Rightarrow> bool" where
  "is_ascii_digit c = (let n = (of_char c :: nat) in 48 \<le> n \<and> n \<le> 57)"

definition isdigit_char :: "char \<Rightarrow> bool" where
  "isdigit_char c =
     (let n = (of_char c :: nat) in (48 \<le> n \<and> n \<le> 57) \<or> n = 178 \<or> n = 179 \<or> n = 185)"

definition isdigit :: "string \<Rightarrow> bool" where
  "isdigit s = (s \<noteq> [] \<and> list_all isdigit_char s)"

text \<open>\<open>s.replace('.', '')\<close>.\<close>

definition remove_dots :: "string \<Rightarrow> string" where
  "remove_dots s = filter (\<lambda>c. c \<noteq> CHR ''.'') s"

definition digits_value :: "string \<Rightarrow> int" where
  "digits_value s = foldl (\<lambda>acc c. 10 * acc + (of_char c - 48)) 0 s"

text \<open>\<open>float(s)\<close> for a string of digits and dots, the only strings that the program
  converts: digits with at most one dot among them, and at least one digit, denote the
  decimal number, rounded to the nearest double; anything else raises \<open>ValueError\<close>.\<close>

definition py_float :: "string \<Rightarrow> exn + pyfloat" where
  "py_float s =
     (let ip = takeWhile (\<lambda>c. c \<noteq> CHR ''.'') s;
          fp = drop 1 (dropWhile (\<lambda>c. c \<noteq> CHR ''.'') s)
      in if ip @ fp \<noteq> [] \<and> list_all is_ascii_digit (ip @ fp)
         then Inr (to_double (of_int (digits_value (ip @ fp)) / 10 ^ length fp))
         else Inl (Exn ValueError (''could not convert string to float: '' @ s)))"

text \<open>\<open>float(var.get()) if var.get().replace('.', '').isdigit() else default\<close>.\<close>

definition read_control :: "pyfloat \<Rightarrow> string \<Rightarrow> exn + pyfloat" where
  "read_control dflt s = (if isdigit (remove_dots s) then py_float s else Inr dflt)"

subsection \<open>The imaging library\<close>

text \<open>\<open>Image.open(io.BytesIO(raw))\<close>. Which byte strings are images is the library's
  matter, the parameter \<open>codec\<close>; no image format has an empty file.\<close>

type_synonym codec = "string \<Rightarrow> image option"

definition image_open :: "codec \<Rightarrow> string \<Rightarrow> exn + image" where
  "image_open codec raw =
     (if raw = [] then Inl (Exn UnidentifiedImageError ''cannot identify image file'')
      else case codec raw of
             None \<Rightarrow> Inl (Exn UnidentifiedImageError ''cannot identify image file'')
           | Some img \<Rightarrow> Inr img)"

text \<open>\<open>img.resize((w, h), LANCZOS)\<close> loads the pixel data and returns an image of the size
  asked for; the library refuses a width or height below 1.\<close>

definition pil_resize :: "image \<Rightarrow> int \<Rightarrow> int \<Rightarrow> exn + image" where
  "pil_resize img w h =
     (if \<not> intact img then Inl (Exn OtherException ''image file is truncated'')
      else if w < 1 \<or> h < 1 then Inl (Exn ValueError ''height and width must be > 0'')
      else Inr \<lparr>img_width = w, img_height = h, intact = True\<rparr>)"

text \<open>\<open>int(n * current_scale)\<close> for a width or height \<open>n\<close>.\<close>

definition scale_dim :: "int \<Rightarrow> pyfloat \<Rightarrow> exn + int" where
  "scale_dim n scale =
     (case float_of_int n of Inl e \<Rightarrow> Inl e | Inr f \<Rightarrow> py_int (fmul f scale))"

text \<open>The body of the inner \<open>try\<close> up to the publication: open the image and, unless the
  scale is 1.0, resize it.\<close>

definition scaled_frame :: "codec \<Rightarrow> pyfloat \<Rightarrow> string \<Rightarrow> exn + image" where
  "scaled_frame codec scale raw =
     (case image_open codec raw of
        Inl e \<Rightarrow> Inl e
      | Inr img \<Rightarrow>
          if scale \<noteq> Fin 1
          then (case scale_dim (img_width img) scale of
                  Inl e \<Rightarrow> Inl e
                | Inr new_width \<Rightarrow>
                    (case scale_dim (img_height img) scale of
                       Inl e \<Rightarrow> Inl e
                     | Inr new_height \<Rightarrow> pil_resize img new_width new_height))
          else Inr img)"

subsection \<open>start_live_stream\<close>

text \<open>
  The loop \<open>while self.streaming\<close> of \<open>start_live_stream\<close> ends only through an
  exception, so the model counts the cycles it may still run: with no cycle left the
  result is \<open>None\<close>. Otherwise the result is the exception that left the loop, if any.
  \<open>live_cycle\<close> is the body of the loop; \<open>clock\<close> gives the time of day that a cycle
  prints, from the length of the trace.
\<close>

definition live_cycle ::
  "bridge \<Rightarrow> (nat \<Rightarrow> string) \<Rightarrow> nat \<Rightarrow> nat \<Rightarrow> session \<Rightarrow> world \<Rightarrow> exn option \<times> world" where
  "live_cycle adb clock fps frame_count s w =
     (let timestamp = clock (length (trace w));
          full_path = path_join (output_folder s) (''frame_'' @ zero_pad6 frame_count @ ''.png'')
      in case run_checked adb [''adb'', ''shell'', ''screencap'', ''-p'', ''/sdcard/temp_frame.png''] w of
           (Inl e, w1) \<Rightarrow> (Some e, w1)
         | (Inr out1, w1) \<Rightarrow>
             (case run_checked adb [''adb'', ''pull'', ''/sdcard/temp_frame.png'', full_path] w1 of
                (Inl e, w2) \<Rightarrow> (Some e, w2)
              | (Inr out2, w2) \<Rightarrow>
                  let w3 = print (''Frame '' @ str_nat frame_count @ '' captured at '' @ timestamp) w2
                  in (case float_of_nat fps of
                        Inl e \<Rightarrow> (Some e, w3)
                      | Inr f \<Rightarrow>
                          (case one_over f of
                             Inl e \<Rightarrow> (Some e, w3)
                           | Inr d \<Rightarrow> (None, emit (Sleep d) w3)))))"

fun live_loop ::
  "bridge \<Rightarrow> (nat \<Rightarrow> string) \<Rightarrow> nat \<Rightarrow> nat \<Rightarrow> nat \<Rightarrow> session \<Rightarrow> world
     \<Rightarrow> (exn option \<times> session \<times> world) option" where
  "live_loop adb clock fps 0 frame_count s w = None"
| "live_loop adb clock fps (Suc fuel) frame_count s w =
     (if \<not> streaming s then Some (None, s, w)
      else case live_cycle adb clock fps frame_count s w of
             (Some e, w') \<Rightarrow> Some (Some e, s, w')
           | (None, w') \<Rightarrow> live_loop adb clock fps fuel (frame_count + 1) s w')"

text \<open>Only \<open>KeyboardInterrupt\<close> is handled: the flag is cleared, the temporary file is
  removed, and the method returns \<open>None\<close>. Any other exception leaves the method.\<close>

definition start_live_stream ::
  "bridge \<Rightarrow> (nat \<Rightarrow> string) \<Rightarrow> nat \<Rightarrow> nat \<Rightarrow> session \<Rightarrow> world
     \<Rightarrow> ((exn + retval) \<times> session \<times> world) option" where
  "start_live_stream adb clock fps fuel s w =
     (if \<not> connected s then Some (Inr RFalse, s, print ''Device not connected'' w)
      else
        let w0 = print (''Frames will be saved to: '' @ output_folder s)
                   (print (''Starting live stream at '' @ str_nat fps @ '' FPS. Press Ctrl+C to stop.'') w)
        in case live_loop adb clock fps fuel 0 (s\<lparr>streaming := True\<rparr>) w0 of
             None \<Rightarrow> None
           | Some (None, s1, w1) \<Rightarrow> Some (Inr RNone, s1, w1)
           | Some (Some e, s1, w1) \<Rightarrow>
               if exn_cls e = KeyboardInterrupt
               then (case subprocess_run adb [''adb'', ''shell'', ''rm'', ''/sdcard/temp_frame.png'']
                            (print ''Stopping live stream...'' w1) of
                       (Raises e', w2) \<Rightarrow> Some (Inl e', s1\<lparr>streaming := False\<rparr>, w2)
                     | (Completed rc out, w2) \<Rightarrow> Some (Inr RNone, s1\<lparr>streaming := False\<rparr>, w2))
               else Some (Inl e, s1, w1))"

subsection \<open>The real-time viewer: shared state\<close>

text \<open>
  The background thread \<open>capture_frames\<close> and the callback \<open>update_display\<close> of the window
  share the flag \<open>self.streaming\<close>, the boxes \<open>current_image\<close> and \<open>frame_count\<close>, and the
  two text controls. \<open>capture_at\<close> is where the background thread stands: before the
  test of its \<open>while\<close>, inside a cycle, or past the loop. \<open>tick_pending\<close> says that a call
  of \<open>update_display\<close> is scheduled, \<open>mainloop\<close> that the window's event loop runs.
\<close>

datatype loc = AtTest | InCycle | Exited

record viewer =
  sess :: session
  fps_var :: string
  scale_var :: string
  current_image :: "image option"
  frame_count :: nat
  capture_at :: loc
  tick_pending :: bool
  mainloop :: bool
  vworld :: world

definition viewer_cmd :: "string list" where
  "viewer_cmd = [''adb'', ''shell'', ''screencap'', ''-p'']"

text \<open>\<open>bytes.replace(b'\r\n', b'\n')\<close>.\<close>

fun fix_crlf :: "string \<Rightarrow> string" where
  "fix_crlf (a # b # cs) =
     (if a = CHR 0x0D \<and> b = CHR 0x0A then CHR 0x0A # fix_crlf cs else a # fix_crlf (b # cs))"
| "fix_crlf cs = cs"

text \<open>The inner \<open>try\<close>: a frame that opens (and resizes) is published, the image first and
  then the counter; any exception is printed and the frame is dropped.\<close>

definition process_frame :: "codec \<Rightarrow> pyfloat \<Rightarrow> string \<Rightarrow> viewer \<Rightarrow> viewer" where
  "process_frame codec scale raw v =
     (case scaled_frame codec scale raw of
        Inl e \<Rightarrow> v\<lparr>vworld := print (''Error processing image: '' @ exn_str e) (vworld v)\<rparr>
      | Inr img \<Rightarrow> v\<lparr>current_image := Some img, frame_count := frame_count v + 1\<rparr>)"

text \<open>One cycle of the loop of \<open>capture_frames\<close>. The result names the exception that
  leaves the cycle, if one does.\<close>

definition capture_cycle :: "bridge \<Rightarrow> codec \<Rightarrow> viewer \<Rightarrow> exn option \<times> viewer" where
  "capture_cycle adb codec v =
     (case read_control (Fin 10) (fps_var v) of
        Inl e \<Rightarrow> (Some e, v)
      | Inr current_fps \<Rightarrow>
          (case read_control (Fin (1 / 2)) (scale_var v) of
             Inl e \<Rightarrow> (Some e, v)
           | Inr current_scale \<Rightarrow>
               (case subprocess_run adb viewer_cmd (vworld v) of
                  (Raises e, w1) \<Rightarrow> (Some e, v\<lparr>vworld := w1\<rparr>)
                | (Completed rc out, w1) \<Rightarrow>
                    let v1 = (if rc = 0
                              then process_frame codec current_scale (fix_crlf out) (v\<lparr>vworld := w1\<rparr>)
                              else v\<lparr>vworld := w1\<rparr>)
                    in (case one_over current_fps of
                          Inl e \<Rightarrow> (Some e, v1)
                        | Inr d \<Rightarrow> (None, v1\<lparr>vworld := emit (Sleep d) (vworld v1)\<rparr>)))))"

text \<open>One move of the background thread: the test of the \<open>while\<close>, or one cycle. The
  outer handler prints the exception and clears the flag; the thread is then past its
  loop.\<close>

definition capture_step :: "bridge \<Rightarrow> codec \<Rightarrow> viewer \<Rightarrow> viewer" where
  "capture_step adb codec v =
     (case capture_at v of
        Exited \<Rightarrow> v
      | AtTest \<Rightarrow> if streaming (sess v) then v\<lparr>capture_at := InCycle\<rparr> else v\<lparr>capture_at := Exited\<rparr>
      | InCycle \<Rightarrow>
          (case capture_cycle adb codec v of
             (None, v') \<Rightarrow> v'\<lparr>capture_at := AtTest\<rparr>
           | (Some e, v') \<Rightarrow>
               if is_Exception e
               then v'\<lparr>sess := (sess v')\<lparr>streaming := False\<rparr>, capture_at := Exited,
                        vworld := print (''Error in capture thread: '' @ exn_str e) (vworld v')\<rparr>
               else v'\<lparr>capture_at := Exited\<rparr>))"

text \<open>\<open>update_display\<close>, called at the time of day \<open>stamp\<close>. Building the photo loads the
  pixel data; a failure there becomes the status line.\<close>

definition update_display :: "string \<Rightarrow> viewer \<Rightarrow> viewer" where
  "update_display stamp v =
     (let w1 = (case current_image v of
                  None \<Rightarrow> vworld v
                | Some img \<Rightarrow>
                    if streaming (sess v)
                    then (if intact img
                          then emit (Status (''Frame '' @ str_nat (frame_count v) @ '' - '' @ stamp
                                       @ '' - '' @ str_int (img_width img) @ ''x''
                                       @ str_int (img_height img)))
                                 (emit (ShowImage img) (vworld v))
                          else emit (Status ''Display error: image file is truncated'') (vworld v))
                    else vworld v)
      in if streaming (sess v)
         then v\<lparr>tick_pending := True, vworld := emit (After 50) w1\<rparr>
         else v\<lparr>tick_pending := False, vworld := w1\<rparr>)"

text \<open>What can happen while the viewer runs: the background thread moves, a scheduled
  \<open>update_display\<close> fires, the user presses Stop, closes the window, or edits a control.
  The window reacts only while its event loop runs.\<close>

datatype action = Capture | Tick string | Stop | Close | SetFps string | SetScale string

fun step :: "bridge \<Rightarrow> codec \<Rightarrow> action \<Rightarrow> viewer \<Rightarrow> viewer" where
  "step adb codec Capture v = capture_step adb codec v"
| "step adb codec (Tick stamp) v =
     (if mainloop v \<and> tick_pending v then update_display stamp v else v)"
| "step adb codec Stop v =
     (if mainloop v then v\<lparr>sess := (sess v)\<lparr>streaming := False\<rparr>, mainloop := False\<rparr> else v)"
| "step adb codec Close v = (if mainloop v then v\<lparr>mainloop := False\<rparr> else v)"
| "step adb codec (SetFps t) v = (if mainloop v then v\<lparr>fps_var := t\<rparr> else v)"
| "step adb codec (SetScale t) v = (if mainloop v then v\<lparr>scale_var := t\<rparr> else v)"

fun run :: "bridge \<Rightarrow> codec \<Rightarrow> action list \<Rightarrow> viewer \<Rightarrow> viewer" where
  "run adb codec [] v = v"
| "run adb codec (a # as) v = run adb codec as (step adb codec a v)"

subsection \<open>view_screen_realtime\<close>

text \<open>
  \<open>fps_text\<close> and \<open>scale_text\<close> are \<open>str(fps)\<close> and \<open>str(scale)\<close>, the first contents of
  the controls; \<open>schedule\<close> is what happens until the event loop has ended. The \<open>finally\<close>
  clause clears the flag.
\<close>

definition view_screen_realtime ::
  "bridge \<Rightarrow> codec \<Rightarrow> bool \<Rightarrow> string \<Rightarrow> string \<Rightarrow> action list \<Rightarrow> session \<Rightarrow> world
     \<Rightarrow> (exn + retval) \<times> session \<times> world" where
  "view_screen_realtime adb codec gui_available fps_text scale_text schedule s w =
     (if \<not> gui_available
      then (Inr RFalse, s,
            print ''pip install pillow''
              (print ''Real-time viewer not available. Please install required packages:'' w))
      else if \<not> connected s then (Inr RFalse, s, print ''Device not connected'' w)
      else
        let v0 = \<lparr>sess = s\<lparr>streaming := True\<rparr>, fps_var = fps_text, scale_var = scale_text,
                  current_image = None, frame_count = 0, capture_at = AtTest,
                  tick_pending = True, mainloop = True,
                  vworld = print ''Close the window or click 'Stop' to exit''
                             (print (''Starting real-time viewer at '' @ fps_text @ '' FPS, scale ''
                                     @ scale_text)
                               (emit (After 100) w))\<rparr>;
            v1 = run adb codec schedule v0
        in (Inr RTrue, (sess v1)\<lparr>streaming := False\<rparr>,
            print ''Real-time viewer stopped'' (vworld v1)))"

subsection \<open>disconnect\<close>

definition disconnect :: "bridge \<Rightarrow> session \<Rightarrow> world \<Rightarrow> (exn + retval) \<times> session \<times> world" where
  "disconnect adb s w =
     (if truthy (device_ip s)
      then (case subprocess_run adb
                   [''adb'', ''disconnect'', the (device_ip s) @ '':'' @ str_int (adb_port s)] w of
              (Raises e, w1) \<Rightarrow> (Inl e, s, w1)
            | (Completed rc out, w1) \<Rightarrow>
                (Inr RNone, s\<lparr>connected := False\<rparr>, print ''Disconnected from device'' w1))
      else (Inr RNone, s\<lparr>connected := False\<rparr>, w))"

definition s_off :: session where
  "s_off = \<lparr>device_ip = None, adb_port = 5555, connected = False, streaming = False,
            output_folder = ''/out''\<rparr>"

subsection \<open>Sample states of the viewer\<close>

text \<open>A viewer inside a cycle of its capture loop, with the given contents of the two
  controls, and a sample decoder: the bytes that start with the PNG signature are an
  image of 3664 by 1920 pixels.\<close>

definition v_demo :: "string \<Rightarrow> string \<Rightarrow> viewer" where
  "v_demo fps_text scale_text =
     \<lparr>sess = s_usb\<lparr>streaming := True\<rparr>, fps_var = fps_text, scale_var = scale_text,
      current_image = None, frame_count = 0, capture_at = InCycle, tick_pending = True,
      mainloop = True, vworld = w_init\<rparr>"

definition png_codec :: codec where
  "png_codec raw =
     (if take 4 raw = [CHR 0x89, CHR ''P'', CHR ''N'', CHR ''G'']
      then Some \<lparr>img_width = 3664, img_height = 1920, intact = True\<rparr> else None)"

definition png_bytes :: string where
  "png_bytes = [CHR 0x89, CHR ''P'', CHR ''N'', CHR ''G'', CHR 0x0D, CHR 0x0A, CHR 0x1A, CHR 0x0A]"

text \<open>The frame that a cycle started in \<open>v\<close> publishes, if it publishes one: the controls
  are read, the bridge command exits with code 0, and its output opens (and resizes).\<close>

definition published_frame :: "bridge \<Rightarrow> codec \<Rightarrow> viewer \<Rightarrow> image option" where
  "published_frame adb codec v =
     (case read_control (Fin 10) (fps_var v) of
        Inl e \<Rightarrow> None
      | Inr current_fps \<Rightarrow>
          (case read_control (Fin (1 / 2)) (scale_var v) of
             Inl e \<Rightarrow> None
           | Inr current_scale \<Rightarrow>
               (case adb (length (commands (vworld v))) viewer_cmd of
                  Raises e \<Rightarrow> None
                | Completed rc out \<Rightarrow>
                    if rc = 0
                    then (case scaled_frame codec current_scale (fix_crlf out) of
                            Inl e \<Rightarrow> None
                          | Inr img \<Rightarrow> Some img)
                    else None)))"

definition adb_png :: bridge where
  "adb_png n argv = Completed 0 png_bytes"

definition adb_empty :: bridge where
  "adb_empty n argv = Completed 0 []"


subsection \<open>What the window shows, and how far the capture thread is from its end\<close>

text \<open>The events of the display: an image shown, the status line set, a call of
  \<open>update_display\<close> scheduled.\<close>

fun is_display :: "event \<Rightarrow> bool" where
  "is_display (ShowImage img) = True"
| "is_display (Status txt) = True"
| "is_display (After ms) = True"
| "is_display e = False"

definition displayed :: "viewer \<Rightarrow> event list" where
  "displayed v = filter is_display (trace (vworld v))"

text \<open>The number of moves that the capture thread needs at most to leave its loop once
  the flag is false: the cycle in progress, then the test.\<close>

fun moves_left :: "loc \<Rightarrow> nat" where
  "moves_left InCycle = 2"
| "moves_left AtTest = 1"
| "moves_left Exited = 0"

definition capture_moves :: "action list \<Rightarrow> nat" where
  "capture_moves as = length (filter (\<lambda>a. a = Capture) as)"

text \<open>A viewer whose Stop button has just been pressed while a cycle was in progress.\<close>

definition v_stopped :: viewer where
  "v_stopped = step adb_png png_codec Stop (v_demo ''10'' ''0.5'')"

subsection \<open>Waiting and elapsed time\<close>









text \<open>The double next below 0.7, which is also the double nearest to 0.7.\<close>

definition near_seven_tenths :: rat where
  "near_seven_tenths = 6305039478318694 / 2 ^ 53"

section \<open>Properties\<close>

subsection \<open>Screenshots\<close>

lemma lower_append: "lower (a @ b) = lower a @ lower b"
  by (simp add: lower_def)

lemma lower_png: "lower ''.png'' = ''.png''"
  by (simp add: lower_def lower_char_def)

lemma endswith_append: "endswith (a @ b) b"
  by (simp add: endswith_def)

lemma run_checked_fail:
  "adb (length (commands w)) argv = Completed rc t \<Longrightarrow> rc \<noteq> 0 \<Longrightarrow>
   run_checked adb argv w =
     (Inl (Exn CalledProcessError ''Command returned non-zero exit status''),
      w\<lparr>trace := trace w @ [Run argv]\<rparr>)"
  by (simp add: run_checked_def subprocess_run_def pulled_def emit_def)

lemma run_checked_ok:
  "adb (length (commands w)) argv = Completed 0 t \<Longrightarrow>
   run_checked adb argv w =
     (Inr t, w\<lparr>trace := trace w @ [Run argv],
                files := pulled argv (Completed 0 t) (files w)\<rparr>)"
  by (simp add: run_checked_def subprocess_run_def emit_def Let_def)

lemma commands_simps:
  "commands (print l w) = commands w"
  "commands (w\<lparr>trace := trace w @ [Run argv]\<rparr>) = commands w @ [Run argv]"
  "commands (w\<lparr>trace := trace w @ [Run argv], files := fs\<rparr>) = commands w @ [Run argv]"
  by (simp_all add: commands_def emit_def print_def)

lemma take_screenshot_success:
  assumes c: "connected s"
    and p: "p = path_join (output_folder s) (screenshot_name stamp filename)"
    and ok: "\<And>n argv. \<exists>t. adb n argv = Completed 0 t"
  shows "fst (take_screenshot adb stamp s filename w) = Inr (RPath p)
       \<and> files (snd (take_screenshot adb stamp s filename w)) = insert p (files w)
       \<and> issued w (snd (take_screenshot adb stamp s filename w)) =
            [Run screencap_cmd, Run (pull_cmd p), Run rm_cmd]"
proof -
  define w0 where "w0 = print ''Taking screenshot...'' w"
  obtain t1 where a1: "adb (length (commands w0)) screencap_cmd = Completed 0 t1"
    using ok by blast
  define w1 where "w1 = w0\<lparr>trace := trace w0 @ [Run screencap_cmd],
                files := pulled screencap_cmd (Completed 0 t1) (files w0)\<rparr>"
  from a1 have s1: "run_checked adb screencap_cmd w0 = (Inr t1, w1)"
    unfolding w1_def by (rule run_checked_ok [where adb = adb])
  obtain t2 where a2: "adb (length (commands w1)) (pull_cmd p) = Completed 0 t2"
    using ok by blast
  define w2 where "w2 = w1\<lparr>trace := trace w1 @ [Run (pull_cmd p)],
                files := pulled (pull_cmd p) (Completed 0 t2) (files w1)\<rparr>"
  from a2 have s2: "run_checked adb (pull_cmd p) w1 = (Inr t2, w2)"
    unfolding w2_def by (rule run_checked_ok [where adb = adb])
  obtain t3 where a3: "adb (length (commands w2)) rm_cmd = Completed 0 t3"
    using ok by blast
  define w3 where "w3 = w2\<lparr>trace := trace w2 @ [Run rm_cmd],
                files := pulled rm_cmd (Completed 0 t3) (files w2)\<rparr>"
  from a3 have s3: "run_checked adb rm_cmd w2 = (Inr t3, w3)"
    unfolding w3_def by (rule run_checked_ok [where adb = adb])
  have r: "take_screenshot adb stamp s filename w =
     (Inr (RPath p), print (''Screenshot saved as: '' @ p) w3)"
    using c by (simp add: take_screenshot_def Let_def p [symmetric] w0_def [symmetric] s1 s2 s3)
  have f: "files w3 = insert p (files w)"
    by (simp add: w3_def w2_def w1_def w0_def pulled_def screencap_cmd_def pull_cmd_def rm_cmd_def
        print_def emit_def)
  have t: "trace w3 = trace w @ [Print ''Taking screenshot...'', Run screencap_cmd,
      Run (pull_cmd p), Run rm_cmd]"
    by (simp add: w3_def w2_def w1_def w0_def print_def emit_def)
  show ?thesis
    by (simp add: r f t print_def emit_def issued_def)
qed

text \<open>
  Claim C3. For a user-supplied (non-empty) file name, the name under which the screenshot
  is saved ends in \<open>.png\<close> once lower-cased: a name whose lower-cased form does not end in
  \<open>.png\<close> gets \<open>.png\<close> appended once, a name that already ends in it (in any letter
  case) is kept as it is, and \<open>shot\<close> gives \<open>shot.png\<close>. When the three bridge commands
  succeed, the file of that name in the output folder is the one returned and written.
\<close>

theorem screenshot_name_png:
  assumes "f \<noteq> []"
  shows "endswith (lower (screenshot_name stamp (Some f))) ''.png''
     \<and> (if endswith (lower f) ''.png'' then screenshot_name stamp (Some f) = f
         else screenshot_name stamp (Some f) = f @ ''.png'')
     \<and> screenshot_name stamp (Some ''shot'') = ''shot.png''
     \<and> (connected s \<and> (\<forall>n argv. \<exists>t. adb n argv = Completed 0 t) \<longrightarrow>
          fst (take_screenshot adb stamp s (Some f) w) =
            Inr (RPath (path_join (output_folder s) (screenshot_name stamp (Some f))))
          \<and> path_join (output_folder s) (screenshot_name stamp (Some f))
              \<in> files (snd (take_screenshot adb stamp s (Some f) w)))"
proof -
  have a: "endswith (lower (f @ ''.png'')) ''.png''"
    using endswith_append [of "lower f" "''.png''"] by (simp only: lower_append lower_png)
  have b: "screenshot_name stamp (Some ''shot'') = ''shot.png''"
    by (simp add: screenshot_name_def endswith_def lower_def lower_char_def)
  have c: "endswith (lower (screenshot_name stamp (Some f))) ''.png''
     \<and> (if endswith (lower f) ''.png'' then screenshot_name stamp (Some f) = f
         else screenshot_name stamp (Some f) = f @ ''.png'')"
    using assms a by (simp add: screenshot_name_def)
  have d: "connected s \<and> (\<forall>n argv. \<exists>t. adb n argv = Completed 0 t) \<longrightarrow>
          fst (take_screenshot adb stamp s (Some f) w) =
            Inr (RPath (path_join (output_folder s) (screenshot_name stamp (Some f))))
          \<and> path_join (output_folder s) (screenshot_name stamp (Some f))
              \<in> files (snd (take_screenshot adb stamp s (Some f) w))"
    using take_screenshot_success [of s _ stamp "Some f" adb w] by simp
  from b c d show ?thesis by blast
qed

theorem screenshot_name_png_witness:
  "screenshot_name ''20250101_120000'' (Some ''Shot.PNG'') = ''Shot.PNG''
   \<and> screenshot_name ''20250101_120000'' (Some ''shot.jpg'') = ''shot.jpg.png''
   \<and> fst (take_screenshot (\<lambda>n argv. Completed 0 []) ''20250101_120000'' s_usb (Some ''shot'') w_init)
       = Inr (RPath ''/out/shot.png'')"
proof -
  have e1: "endswith (lower ''Shot.PNG'') ''.png''"
    by code_simp
  have e2: "\<not> endswith (lower ''shot.jpg'') ''.png''"
    by code_simp
  have n: "screenshot_name ''20250101_120000'' (Some ''shot'') = ''shot.png''"
    using screenshot_name_png [of "''shot''"] by simp
  have c: "connected s_usb \<and> (\<forall>n argv. \<exists>t. (\<lambda>n argv. Completed 0 []) n argv = Completed 0 t)"
    by (simp add: s_usb_def)
  have "fst (take_screenshot (\<lambda>n argv. Completed 0 []) ''20250101_120000'' s_usb (Some ''shot'') w_init)
       = Inr (RPath (path_join (output_folder s_usb) ''shot.png''))"
    using screenshot_name_png [of "''shot''" "''20250101_120000''" s_usb "\<lambda>n argv. Completed 0 []" w_init] c
    by (simp only: n) simp
  moreover have "path_join (output_folder s_usb) ''shot.png'' = ''/out/shot.png''"
    by (simp add: path_join_def s_usb_def)
  ultimately show ?thesis
    using screenshot_name_png [of "''Shot.PNG''" "''20250101_120000''"]
      screenshot_name_png [of "''shot.jpg''" "''20250101_120000''"] e1 e2
    by simp
qed

text \<open>
  Claim C1, as amended. On a connected session, when the remote screenshot command exits
  non-zero, or it succeeds and the pull exits non-zero, \<open>take_screenshot\<close> returns
  \<open>False\<close>, no local file is written, and no removal command is started: the commands of
  the call are the screenshot command alone, or the screenshot command and the pull.
\<close>

theorem take_screenshot_failure:
  assumes c: "connected s"
    and n: "n = length (commands w)"
    and p: "p = path_join (output_folder s) (screenshot_name stamp filename)"
    and cap: "adb n screencap_cmd = Completed rc1 t1"
    and bad: "rc1 \<noteq> 0 \<or> (adb (Suc n) (pull_cmd p) = Completed rc2 t2 \<and> rc2 \<noteq> 0)"
  shows "fst (take_screenshot adb stamp s filename w) = Inr RFalse
       \<and> files (snd (take_screenshot adb stamp s filename w)) = files w
       \<and> Run rm_cmd \<notin> set (issued w (snd (take_screenshot adb stamp s filename w)))
       \<and> issued w (snd (take_screenshot adb stamp s filename w)) =
           (if rc1 \<noteq> 0 then [Run screencap_cmd] else [Run screencap_cmd, Run (pull_cmd p)])"
proof (cases "rc1 = 0")
  case False
  define w0 where "w0 = print ''Taking screenshot...'' w"
  have "adb (length (commands w0)) screencap_cmd = Completed rc1 t1"
    using cap n by (simp add: commands_simps w0_def)
  then have "run_checked adb screencap_cmd w0 =
     (Inl (Exn CalledProcessError ''Command returned non-zero exit status''),
      w0\<lparr>trace := trace w0 @ [Run screencap_cmd]\<rparr>)"
    using False by (rule run_checked_fail [where adb = adb])
  with c show ?thesis
    by (simp add: take_screenshot_def Let_def w0_def [symmetric] screenshot_failed_def False)
       (simp add: w0_def print_def emit_def issued_def rm_cmd_def screencap_cmd_def)
next
  case True
  with bad have pull: "adb (Suc n) (pull_cmd p) = Completed rc2 t2" and rc2: "rc2 \<noteq> 0"
    by simp_all
  define w0 where "w0 = print ''Taking screenshot...'' w"
  define w1 where "w1 = w0\<lparr>trace := trace w0 @ [Run screencap_cmd],
                files := pulled screencap_cmd (Completed 0 t1) (files w0)\<rparr>"
  define w2 where "w2 = w1\<lparr>trace := trace w1 @ [Run (pull_cmd p)]\<rparr>"
  have "adb (length (commands w0)) screencap_cmd = Completed 0 t1"
    using cap n True by (simp add: commands_simps w0_def)
  then have s1: "run_checked adb screencap_cmd w0 = (Inr t1, w1)"
    unfolding w1_def by (rule run_checked_ok [where adb = adb])
  have "adb (length (commands w1)) (pull_cmd p) = Completed rc2 t2"
    using pull n by (simp add: commands_simps w1_def w0_def)
  then have s2: "run_checked adb (pull_cmd p) w1 =
     (Inl (Exn CalledProcessError ''Command returned non-zero exit status''), w2)"
    unfolding w2_def using rc2 by (rule run_checked_fail [where adb = adb])
  have r: "take_screenshot adb stamp s filename w =
     (Inr RFalse, print (''Error taking screenshot: '' @ ''Command returned non-zero exit status'') w2)"
    using c by (simp add: take_screenshot_def Let_def p [symmetric] w0_def [symmetric] s1 s2
        screenshot_failed_def)
  have f: "files w2 = files w"
    by (simp add: w2_def w1_def w0_def pulled_def screencap_cmd_def print_def emit_def)
  have t: "trace w2 = trace w @ [Print ''Taking screenshot...'', Run screencap_cmd, Run (pull_cmd p)]"
    by (simp add: w2_def w1_def w0_def print_def emit_def)
  show ?thesis using True
    by (simp add: r f t print_def emit_def issued_def)
       (simp add: rm_cmd_def screencap_cmd_def pull_cmd_def)
qed

theorem take_screenshot_failure_witness:
  "fst (take_screenshot (\<lambda>n argv. Completed 1 []) ''20250101_120000'' s_usb (Some ''shot'') w_init)
     = Inr RFalse
   \<and> issued w_init (snd (take_screenshot (\<lambda>n argv. Completed 1 []) ''20250101_120000'' s_usb
        (Some ''shot'') w_init)) = [Run screencap_cmd]"
  using take_screenshot_failure [of s_usb 0 w_init "''/out/shot.png''" "''20250101_120000''"
      "Some ''shot''" "\<lambda>n argv. Completed 1 []" 1 "[]" 1 "[]"]
  by (simp add: s_usb_def w_init_def commands_def path_join_def screenshot_name_def
      endswith_def lower_def lower_char_def)

text \<open>
  The claim C1 as first stated asks for the removal command after a failure. With a bridge
  whose every command exits with code 1 the call returns \<open>False\<close> and the trace holds no
  removal command.
\<close>

theorem take_screenshot_cleanup_counterexample:
  "connected s_usb
   \<and> fst (take_screenshot (\<lambda>n argv. Completed 1 []) ''20250101_120000'' s_usb (Some ''shot'') w_init)
       = Inr RFalse
   \<and> Run rm_cmd \<notin> set (trace (snd (take_screenshot (\<lambda>n argv. Completed 1 [])
        ''20250101_120000'' s_usb (Some ''shot'') w_init)))"
  by (simp add: take_screenshot_def s_usb_def w_init_def run_checked_def subprocess_run_def
      commands_def print_def emit_def pulled_def screenshot_failed_def Let_def rm_cmd_def
      screencap_cmd_def)

subsection \<open>Operations on a session that is not connected\<close>

lemma issued_print: "issued w (print l w) = []"
  by (simp add: issued_def print_def emit_def)

text \<open>
  Claim C10. With the connected flag false, each of \<open>get_device_info\<close>, \<open>take_screenshot\<close>,
  \<open>start_screen_recording\<close>, \<open>start_live_stream\<close> and \<open>view_screen_realtime\<close> returns its
  failure value (\<open>None\<close> for the first, \<open>False\<close> for the others) after printing one
  line: no command is started, no local file is written, and the session is unchanged.
\<close>

theorem disconnected_operations_fail:
  assumes "\<not> connected s"
  shows "get_device_info adb s w = (Inr RNone, print ''Device not connected'' w)
       \<and> take_screenshot adb stamp s filename w = (Inr RFalse, print ''Device not connected'' w)
       \<and> start_screen_recording adb stamp s filename duration w
            = (Inr RFalse, print ''Device not connected'' w)
       \<and> start_live_stream adb clock fps fuel s w
            = Some (Inr RFalse, s, print ''Device not connected'' w)
       \<and> view_screen_realtime adb codec True fps_text scale_text schedule s w
            = (Inr RFalse, s, print ''Device not connected'' w)
       \<and> fst (view_screen_realtime adb codec False fps_text scale_text schedule s w) = Inr RFalse
       \<and> fst (snd (view_screen_realtime adb codec False fps_text scale_text schedule s w)) = s
       \<and> issued w (snd (snd (view_screen_realtime adb codec False fps_text scale_text schedule s w)))
            = []
       \<and> files (snd (snd (view_screen_realtime adb codec False fps_text scale_text schedule s w)))
            = files w
       \<and> issued w (print ''Device not connected'' w) = []
       \<and> files (print ''Device not connected'' w) = files w"
  using assms
  by (simp add: get_device_info_def take_screenshot_def start_screen_recording_def
      start_live_stream_def view_screen_realtime_def issued_def print_def emit_def)

theorem disconnected_operations_fail_witness:
  "\<not> connected s_off
   \<and> take_screenshot (\<lambda>n argv. Completed 0 []) ''20250101_120000'' s_off (Some ''shot'') w_init
       = (Inr RFalse, \<lparr>trace = [Print ''Device not connected''], files = {}\<rparr>)
   \<and> start_live_stream (\<lambda>n argv. Completed 0 []) (\<lambda>n. ''12:00:00'') 10 5 s_off w_init
       = Some (Inr RFalse, s_off, \<lparr>trace = [Print ''Device not connected''], files = {}\<rparr>)"
  using disconnected_operations_fail [of s_off "\<lambda>n argv. Completed 0 []" w_init
      "''20250101_120000''" "Some ''shot''" 30 "\<lambda>n. ''12:00:00''" 10 5]
  by (simp add: s_off_def w_init_def print_def emit_def)

subsection \<open>The capture loop\<close>

lemma process_frame_count:
  "frame_count (process_frame codec sc raw v) =
     (case scaled_frame codec sc raw of Inl e \<Rightarrow> frame_count v | Inr img \<Rightarrow> frame_count v + 1)"
  by (simp add: process_frame_def split: sum.splits)

lemma process_frame_image:
  "current_image (process_frame codec sc raw v) =
     (case scaled_frame codec sc raw of Inl e \<Rightarrow> current_image v | Inr img \<Rightarrow> Some img)"
  by (simp add: process_frame_def split: sum.splits)

lemma process_frame_sess: "sess (process_frame codec sc raw v) = sess v"
  by (simp add: process_frame_def split: sum.splits)

text \<open>The four ways through a cycle: a control cannot be read, the bridge command cannot
  be run, or the command completes and the cycle ends with its sleep.\<close>

lemma capture_cycle_cases:
  obtains
    (fps_error) e where "read_control (Fin 10) (fps_var v) = Inl e"
      and "capture_cycle adb codec v = (Some e, v)"
  | (scale_error) f e where "read_control (Fin 10) (fps_var v) = Inr f"
      and "read_control (Fin (1 / 2)) (scale_var v) = Inl e"
      and "capture_cycle adb codec v = (Some e, v)"
  | (raised) f sc e where "read_control (Fin 10) (fps_var v) = Inr f"
      and "read_control (Fin (1 / 2)) (scale_var v) = Inr sc"
      and "adb (length (commands (vworld v))) viewer_cmd = Raises e"
      and "capture_cycle adb codec v = (Some e, v\<lparr>vworld := emit (Run viewer_cmd) (vworld v)\<rparr>)"
  | (completed) f sc rc out v1 where "read_control (Fin 10) (fps_var v) = Inr f"
      and "read_control (Fin (1 / 2)) (scale_var v) = Inr sc"
      and "adb (length (commands (vworld v))) viewer_cmd = Completed rc out"
      and "v1 = (if rc = 0
                 then process_frame codec sc (fix_crlf out)
                        (v\<lparr>vworld := emit (Run viewer_cmd) (vworld v)\<rparr>)
                 else v\<lparr>vworld := emit (Run viewer_cmd) (vworld v)\<rparr>)"
      and "capture_cycle adb codec v =
             (case one_over f of
                Inl e \<Rightarrow> (Some e, v1)
              | Inr d \<Rightarrow> (None, v1\<lparr>vworld := emit (Sleep d) (vworld v1)\<rparr>))"
proof (cases "read_control (Fin 10) (fps_var v)")
  case (Inl e)
  then have "capture_cycle adb codec v = (Some e, v)" by (simp add: capture_cycle_def)
  with Inl show ?thesis by (rule fps_error)
next
  case f: (Inr f)
  show ?thesis
  proof (cases "read_control (Fin (1 / 2)) (scale_var v)")
    case (Inl e)
    with f have "capture_cycle adb codec v = (Some e, v)" by (simp add: capture_cycle_def)
    with f Inl show ?thesis by (rule scale_error)
  next
    case sc: (Inr sc)
    have w: "(emit (Run viewer_cmd) (vworld v))\<lparr>files := files (vworld v)\<rparr>
               = emit (Run viewer_cmd) (vworld v)"
      by (simp add: emit_def)
    have p: "pulled viewer_cmd out (files (vworld v)) = files (vworld v)" for out
      by (simp add: pulled_def viewer_cmd_def split: outcome.splits)
    show ?thesis
    proof (cases "adb (length (commands (vworld v))) viewer_cmd")
      case (Raises e)
      with f sc have "capture_cycle adb codec v
          = (Some e, v\<lparr>vworld := emit (Run viewer_cmd) (vworld v)\<rparr>)"
        by (simp add: capture_cycle_def subprocess_run_def p w)
      with f sc Raises show ?thesis by (rule raised)
    next
      case (Completed rc out)
      define v1 where "v1 = (if rc = 0
                 then process_frame codec sc (fix_crlf out)
                        (v\<lparr>vworld := emit (Run viewer_cmd) (vworld v)\<rparr>)
                 else v\<lparr>vworld := emit (Run viewer_cmd) (vworld v)\<rparr>)"
      have "capture_cycle adb codec v =
             (case one_over f of
                Inl e \<Rightarrow> (Some e, v1)
              | Inr d \<Rightarrow> (None, v1\<lparr>vworld := emit (Sleep d) (vworld v1)\<rparr>))"
        unfolding v1_def using f sc Completed
        by (simp add: capture_cycle_def subprocess_run_def p w Let_def)
      with f sc Completed v1_def show ?thesis by (rule completed)
    qed
  qed
qed

lemma capture_cycle_effect:
  "frame_count (snd (capture_cycle adb codec v)) =
     (case published_frame adb codec v of None \<Rightarrow> frame_count v | Some img \<Rightarrow> frame_count v + 1)
   \<and> current_image (snd (capture_cycle adb codec v)) =
     (case published_frame adb codec v of None \<Rightarrow> current_image v | Some img \<Rightarrow> Some img)
   \<and> sess (snd (capture_cycle adb codec v)) = sess v"
proof (cases rule: capture_cycle_cases [of v adb codec])
  case (fps_error e)
  then show ?thesis by (simp add: published_frame_def)
next
  case (scale_error f e)
  then show ?thesis by (simp add: published_frame_def)
next
  case (raised f sc e)
  then show ?thesis by (simp add: published_frame_def)
next
  case (completed f sc rc out v1)
  have p: "published_frame adb codec v =
      (if rc = 0 then (case scaled_frame codec sc (fix_crlf out) of
                         Inl e \<Rightarrow> None | Inr img \<Rightarrow> Some img) else None)"
    using completed(1-3) by (simp add: published_frame_def)
  have a: "frame_count (snd (capture_cycle adb codec v)) = frame_count v1"
    and b: "current_image (snd (capture_cycle adb codec v)) = current_image v1"
    and c: "sess (snd (capture_cycle adb codec v)) = sess v1"
    using completed(5) by (simp_all split: sum.splits)
  have a1: "frame_count v1 =
      (case published_frame adb codec v of None \<Rightarrow> frame_count v | Some img \<Rightarrow> frame_count v + 1)"
    unfolding p completed(4) by (simp add: process_frame_count split: sum.splits)
  have b1: "current_image v1 =
      (case published_frame adb codec v of None \<Rightarrow> current_image v | Some img \<Rightarrow> Some img)"
    unfolding p completed(4) by (simp add: process_frame_image split: sum.splits)
  have c1: "sess v1 = sess v"
    unfolding completed(4) by (simp add: process_frame_sess)
  show ?thesis by (simp only: a b c a1 b1 c1 simp_thms)
qed

lemma capture_cycle_count:
  "frame_count (snd (capture_cycle adb codec v)) =
     (case published_frame adb codec v of None \<Rightarrow> frame_count v | Some img \<Rightarrow> frame_count v + 1)"
  using capture_cycle_effect [of adb codec v] by blast

lemma capture_cycle_image:
  "current_image (snd (capture_cycle adb codec v)) =
     (case published_frame adb codec v of None \<Rightarrow> current_image v | Some img \<Rightarrow> Some img)"
  using capture_cycle_effect [of adb codec v] by blast

lemma capture_cycle_sess: "sess (snd (capture_cycle adb codec v)) = sess v"
  using capture_cycle_effect [of adb codec v] by blast

lemma capture_step_count:
  "frame_count (capture_step adb codec v) =
     (if capture_at v = InCycle
      then (case published_frame adb codec v of None \<Rightarrow> frame_count v | Some img \<Rightarrow> frame_count v + 1)
      else frame_count v)"
proof (cases "capture_at v")
  case InCycle
  obtain r v' where c: "capture_cycle adb codec v = (r, v')" by (cases "capture_cycle adb codec v")
  have "frame_count (capture_step adb codec v) = frame_count v'"
    using InCycle c by (simp add: capture_step_def split: option.splits)
  also have "\<dots> = frame_count (snd (capture_cycle adb codec v))" using c by simp
  finally show ?thesis using InCycle by (simp add: capture_cycle_count)
qed (simp_all add: capture_step_def)

lemma update_display_count: "frame_count (update_display stamp v) = frame_count v"
  by (simp add: update_display_def Let_def)

lemma step_count:
  "frame_count (step adb codec a v) =
     (if a = Capture \<and> capture_at v = InCycle
      then (case published_frame adb codec v of None \<Rightarrow> frame_count v | Some img \<Rightarrow> frame_count v + 1)
      else frame_count v)"
  by (cases a) (simp_all add: capture_step_count update_display_count)

lemma step_count_mono: "frame_count v \<le> frame_count (step adb codec a v)"
  by (simp add: step_count split: option.splits)

lemma run_count_mono: "frame_count v \<le> frame_count (run adb codec as v)"
proof (induction as arbitrary: v)
  case Nil
  show ?case by simp
next
  case (Cons a as)
  have "frame_count v \<le> frame_count (step adb codec a v)" by (rule step_count_mono)
  also have "\<dots> \<le> frame_count (run adb codec as (step adb codec a v))" by (rule Cons.IH)
  finally show ?case by simp
qed

text \<open>
  Claim C9. Each move of the viewer leaves the frame counter as it is, except a cycle of
  the capture loop that publishes a frame, which adds exactly 1 (and stores that frame as
  the current image); so over any run of the viewer the counter never decreases.
\<close>

theorem frame_count_monotone:
  "frame_count (step adb codec a v) =
     (if a = Capture \<and> capture_at v = InCycle
      then (case published_frame adb codec v of None \<Rightarrow> frame_count v | Some img \<Rightarrow> frame_count v + 1)
      else frame_count v)
   \<and> frame_count (snd (capture_cycle adb codec v)) =
       (case published_frame adb codec v of None \<Rightarrow> frame_count v | Some img \<Rightarrow> frame_count v + 1)
   \<and> current_image (snd (capture_cycle adb codec v)) =
       (case published_frame adb codec v of None \<Rightarrow> current_image v | Some img \<Rightarrow> Some img)
   \<and> frame_count v \<le> frame_count (run adb codec as v)"
  by (simp only: step_count capture_cycle_count capture_cycle_image run_count_mono simp_thms)

lemma update_display_sess: "sess (update_display stamp v) = sess v"
  by (simp add: update_display_def Let_def)

lemma update_display_at: "capture_at (update_display stamp v) = capture_at v"
  by (simp add: update_display_def Let_def)

lemma capture_step_streaming:
  "streaming (sess (capture_step adb codec v)) \<Longrightarrow> streaming (sess v)"
proof (cases "capture_at v")
  case InCycle
  obtain r v' where c: "capture_cycle adb codec v = (r, v')" by (cases "capture_cycle adb codec v")
  then have "sess v' = sess v" using capture_cycle_sess [of adb codec v] by simp
  then show "streaming (sess (capture_step adb codec v)) \<Longrightarrow> streaming (sess v)"
    using InCycle c by (simp add: capture_step_def split: option.splits if_splits)
qed (simp_all add: capture_step_def split: if_splits)

lemma step_streaming: "streaming (sess (step adb codec a v)) \<Longrightarrow> streaming (sess v)"
  by (cases a) (auto simp add: update_display_sess split: if_splits dest: capture_step_streaming)





lemma capture_step_raised:
  assumes "capture_at v = InCycle" and "fst (capture_cycle adb codec v) = Some e"
    and "is_Exception e"
  shows "\<not> streaming (sess (capture_step adb codec v))"
    and "capture_at (capture_step adb codec v) = Exited"
    and "trace (vworld (capture_step adb codec v)) =
           trace (vworld (snd (capture_cycle adb codec v)))
             @ [Print (''Error in capture thread: '' @ exn_str e)]"
  using assms
  by (cases "capture_cycle adb codec v"; simp add: capture_step_def print_def emit_def)+



lemma read_fps_10: "read_control (Fin 10) ''10'' = Inr (Fin 10)"
  by code_simp

lemma read_scale_half: "read_control (Fin (1 / 2)) ''0.5'' = Inr (Fin (1 / 2))"
  by code_simp


subsection \<open>Sample cycles\<close>

lemma scale_3664_half: "scale_dim 3664 (Fin (1 / 2)) = Inr 1832"
  by code_simp

lemma scale_1920_half: "scale_dim 1920 (Fin (1 / 2)) = Inr 960"
  by code_simp

lemma sample_frame:
  "scaled_frame png_codec (Fin (1 / 2)) (fix_crlf png_bytes)
     = Inr \<lparr>img_width = 1832, img_height = 960, intact = True\<rparr>"
  by (simp add: scaled_frame_def image_open_def png_codec_def png_bytes_def pil_resize_def
      scale_3664_half scale_1920_half)

lemma sample_publishes:
  "published_frame adb_png png_codec (v_demo ''10'' ''0.5'')
     = Some \<lparr>img_width = 1832, img_height = 960, intact = True\<rparr>"
  by (simp add: published_frame_def v_demo_def read_fps_10 read_scale_half adb_png_def
      sample_frame)

theorem frame_count_monotone_witness:
  "frame_count (step adb_png png_codec Capture (v_demo ''10'' ''0.5'')) = 1
   \<and> frame_count (v_demo ''10'' ''0.5'')
       \<le> frame_count (run adb_png png_codec [Capture, Tick ''12:00:00'', Capture]
            (v_demo ''10'' ''0.5''))"
proof -
  have a: "capture_at (v_demo ''10'' ''0.5'') = InCycle" "frame_count (v_demo ''10'' ''0.5'') = 0"
    by (simp_all add: v_demo_def)
  from frame_count_monotone [of adb_png png_codec Capture "v_demo ''10'' ''0.5''"
      "[Capture, Tick ''12:00:00'', Capture]"]
  show ?thesis by (simp only: sample_publishes a) simp
qed

subsection \<open>Frames that do not decode, and controls that do not read\<close>

lemma cycle_fps_error:
  "read_control (Fin 10) (fps_var v) = Inl e \<Longrightarrow> capture_cycle adb codec v = (Some e, v)"
  by (simp add: capture_cycle_def)

lemma cycle_completed:
  assumes "read_control (Fin 10) (fps_var v) = Inr f"
    and "read_control (Fin (1 / 2)) (scale_var v) = Inr sc"
    and "adb (length (commands (vworld v))) viewer_cmd = Completed rc out"
  shows "capture_cycle adb codec v =
     (let v1 = (if rc = 0
                then process_frame codec sc (fix_crlf out)
                       (v\<lparr>vworld := emit (Run viewer_cmd) (vworld v)\<rparr>)
                else v\<lparr>vworld := emit (Run viewer_cmd) (vworld v)\<rparr>)
      in case one_over f of
           Inl e \<Rightarrow> (Some e, v1)
         | Inr d \<Rightarrow> (None, v1\<lparr>vworld := emit (Sleep d) (vworld v1)\<rparr>))"
proof -
  have w: "(emit (Run viewer_cmd) (vworld v))\<lparr>files := files (vworld v)\<rparr>
             = emit (Run viewer_cmd) (vworld v)"
    by (simp add: emit_def)
  have p: "pulled viewer_cmd (Completed rc out) (files (vworld v)) = files (vworld v)"
    by (simp add: pulled_def viewer_cmd_def)
  show ?thesis
    using assms by (simp add: capture_cycle_def subprocess_run_def p w Let_def)
qed

text \<open>A frame that does not open is reported and dropped: the image and the counter stay
  as they were. When the rate of the cycle is not zero, the cycle ends with its sleep and
  the thread goes back to the test of its loop.\<close>

lemma decode_failure_skips_frame:
  assumes f: "read_control (Fin 10) (fps_var v) = Inr f"
    and sc: "read_control (Fin (1 / 2)) (scale_var v) = Inr sc"
    and out: "adb (length (commands (vworld v))) viewer_cmd = Completed 0 out"
    and bad: "image_open codec (fix_crlf out) = Inl e"
  shows "current_image (snd (capture_cycle adb codec v)) = current_image v"
    and "frame_count (snd (capture_cycle adb codec v)) = frame_count v"
    and "Print (''Error processing image: '' @ exn_str e)
           \<in> set (trace (vworld (snd (capture_cycle adb codec v))))"
    and "one_over f = Inr d \<Longrightarrow> fst (capture_cycle adb codec v) = None"
    and "one_over f = Inr d \<Longrightarrow> capture_at v = InCycle \<Longrightarrow>
           capture_at (capture_step adb codec v) = AtTest
           \<and> streaming (sess (capture_step adb codec v)) = streaming (sess v)"
proof -
  have s: "scaled_frame codec sc (fix_crlf out) = Inl e"
    using bad by (simp add: scaled_frame_def)
  have c: "capture_cycle adb codec v =
     (let v1 = (if (0::int) = 0
                then process_frame codec sc (fix_crlf out)
                       (v\<lparr>vworld := emit (Run viewer_cmd) (vworld v)\<rparr>)
                else v\<lparr>vworld := emit (Run viewer_cmd) (vworld v)\<rparr>)
      in case one_over f of
           Inl e \<Rightarrow> (Some e, v1)
         | Inr d \<Rightarrow> (None, v1\<lparr>vworld := emit (Sleep d) (vworld v1)\<rparr>))"
    using f sc out by (rule cycle_completed [where adb = adb])
  show "current_image (snd (capture_cycle adb codec v)) = current_image v"
    and "frame_count (snd (capture_cycle adb codec v)) = frame_count v"
    and "Print (''Error processing image: '' @ exn_str e)
           \<in> set (trace (vworld (snd (capture_cycle adb codec v))))"
    by (simp_all add: c Let_def process_frame_def s print_def emit_def split: sum.splits)
  show "fst (capture_cycle adb codec v) = None" if "one_over f = Inr d"
    using that by (simp add: c Let_def)
  show "capture_at (capture_step adb codec v) = AtTest
           \<and> streaming (sess (capture_step adb codec v)) = streaming (sess v)"
    if "one_over f = Inr d" "capture_at v = InCycle"
    using that by (simp add: capture_step_def c Let_def process_frame_def s)
qed

lemma read_fps_zero: "read_control (Fin 10) ''0'' = Inr (Fin 0)"
  by code_simp

lemma read_fps_dots:
  "read_control (Fin 10) ''1.2.3'' = Inl (Exn ValueError ''could not convert string to float: 1.2.3'')"
  by code_simp

lemma read_fps_text: "read_control (Fin 10) ''fast'' = Inr (Fin 10)"
  by code_simp

text \<open>
  Claim C2 fails on the code. The text \<open>0\<close> in the fps control passes the test of the
  digits, is read as 0.0 (not as the default 10), and the sleep at the end of the cycle
  divides by it: the exception leaves the cycle, the outer handler clears the flag and the
  capture loop is over. The text \<open>1.2.3\<close> passes the test too and \<open>float\<close> raises on it.
  A text that fails the test, such as \<open>fast\<close>, does give the default.
\<close>

theorem zero_fps_ends_capture_loop:
  "read_control (Fin 10) ''fast'' = Inr (Fin 10)
   \<and> read_control (Fin 10) ''0'' = Inr (Fin 0)
   \<and> fst (capture_cycle adb_png png_codec (v_demo ''0'' ''0.5''))
       = Some (Exn ZeroDivisionError ''float division by zero'')
   \<and> \<not> streaming (sess (capture_step adb_png png_codec (v_demo ''0'' ''0.5'')))
   \<and> capture_at (capture_step adb_png png_codec (v_demo ''0'' ''0.5'')) = Exited
   \<and> fst (capture_cycle adb_png png_codec (v_demo ''1.2.3'' ''0.5''))
       = Some (Exn ValueError ''could not convert string to float: 1.2.3'')
   \<and> \<not> streaming (sess (capture_step adb_png png_codec (v_demo ''1.2.3'' ''0.5'')))
   \<and> capture_at (capture_step adb_png png_codec (v_demo ''1.2.3'' ''0.5'')) = Exited"
proof -
  have z: "fst (capture_cycle adb_png png_codec (v_demo ''0'' ''0.5''))
       = Some (Exn ZeroDivisionError ''float division by zero'')"
    using cycle_completed [of "v_demo ''0'' ''0.5''" "Fin 0" "Fin (1 / 2)" adb_png 0 png_bytes
        png_codec]
    by (simp add: v_demo_def read_fps_zero read_scale_half adb_png_def Let_def)
  have d: "fst (capture_cycle adb_png png_codec (v_demo ''1.2.3'' ''0.5''))
       = Some (Exn ValueError ''could not convert string to float: 1.2.3'')"
    using cycle_fps_error [of "v_demo ''1.2.3'' ''0.5''" _ adb_png png_codec]
    by (simp add: v_demo_def read_fps_dots)
  have i: "capture_at (v_demo ''0'' ''0.5'') = InCycle"
    "capture_at (v_demo ''1.2.3'' ''0.5'') = InCycle"
    by (simp_all add: v_demo_def)
  have e: "is_Exception (Exn ZeroDivisionError ''float division by zero'')"
    "is_Exception (Exn ValueError ''could not convert string to float: 1.2.3'')"
    by (simp_all add: is_Exception_def)
  show ?thesis
    using capture_step_raised(1,2) [OF i(1) z e(1)] capture_step_raised(1,2) [OF i(2) d e(2)]
    by (simp only: z d read_fps_zero read_fps_text simp_thms)
qed

text \<open>
  Claim C5 fails on the code through the same defect. With \<open>0\<close> in the fps control and an
  empty byte stream from the bridge, the frame is reported and dropped as the claim says,
  but the sleep that ends the cycle then divides by zero and the capture loop is over:
  no next cycle runs.
\<close>

theorem decode_failure_then_zero_fps:
  "image_open png_codec (fix_crlf []) = Inl (Exn UnidentifiedImageError ''cannot identify image file'')
   \<and> trace (vworld (capture_step adb_empty png_codec (v_demo ''0'' ''0.5''))) =
       [Run viewer_cmd, Print ''Error processing image: cannot identify image file'',
        Print ''Error in capture thread: float division by zero'']
   \<and> frame_count (capture_step adb_empty png_codec (v_demo ''0'' ''0.5'')) = 0
   \<and> current_image (capture_step adb_empty png_codec (v_demo ''0'' ''0.5'')) = None
   \<and> \<not> streaming (sess (capture_step adb_empty png_codec (v_demo ''0'' ''0.5'')))
   \<and> capture_at (capture_step adb_empty png_codec (v_demo ''0'' ''0.5'')) = Exited"
proof -
  have o: "image_open png_codec (fix_crlf [])
      = Inl (Exn UnidentifiedImageError ''cannot identify image file'')"
    by (simp add: image_open_def)
  have s: "scaled_frame png_codec (Fin (1 / 2)) []
      = Inl (Exn UnidentifiedImageError ''cannot identify image file'')"
    by (simp add: scaled_frame_def image_open_def)
  have c: "capture_cycle adb_empty png_codec (v_demo ''0'' ''0.5'') =
      (Some (Exn ZeroDivisionError ''float division by zero''),
       (v_demo ''0'' ''0.5'')\<lparr>vworld := print ''Error processing image: cannot identify image file''
          (emit (Run viewer_cmd) w_init)\<rparr>)"
    using cycle_completed [of "v_demo ''0'' ''0.5''" "Fin 0" "Fin (1 / 2)" adb_empty 0 "[]"
        png_codec]
    by (simp add: v_demo_def read_fps_zero read_scale_half adb_empty_def Let_def
        process_frame_def s)
  have i: "capture_at (v_demo ''0'' ''0.5'') = InCycle"
    by (simp add: v_demo_def)
  show ?thesis
    unfolding capture_step_def i c
    by (simp add: image_open_def is_Exception_def v_demo_def print_def emit_def w_init_def)
qed

subsection \<open>After the streaming flag has become false\<close>

lemma displayed_process_frame: "displayed (process_frame codec sc raw v) = displayed v"
  by (simp add: process_frame_def displayed_def print_def emit_def split: sum.splits)

lemma displayed_capture_cycle: "displayed (snd (capture_cycle adb codec v)) = displayed v"
proof (cases rule: capture_cycle_cases [of v adb codec])
  case (completed f sc rc out v1)
  have "displayed v1 = displayed v"
    unfolding completed(4)
    by (simp add: displayed_process_frame) (simp add: displayed_def emit_def)
  moreover have "displayed (snd (capture_cycle adb codec v)) = displayed v1"
    using completed(5) by (simp add: displayed_def emit_def split: sum.splits)
  ultimately show ?thesis by simp
qed (simp_all add: displayed_def emit_def)

lemma displayed_capture_step: "displayed (capture_step adb codec v) = displayed v"
proof (cases "capture_at v")
  case InCycle
  obtain r v' where c: "capture_cycle adb codec v = (r, v')"
    by (cases "capture_cycle adb codec v")
  then have "displayed v' = displayed v"
    using displayed_capture_cycle [of adb codec v] by simp
  then show ?thesis
    using InCycle c
    by (simp add: capture_step_def displayed_def print_def emit_def split: option.splits)
qed (simp_all add: capture_step_def displayed_def)

lemma displayed_update_stopped:
  "\<not> streaming (sess v) \<Longrightarrow> displayed (update_display stamp v) = displayed v"
  by (simp add: update_display_def displayed_def split: option.splits)

lemma displayed_step_stopped:
  "\<not> streaming (sess v) \<Longrightarrow> displayed (step adb codec a v) = displayed v"
  by (cases a) (simp_all add: displayed_capture_step displayed_update_stopped, simp_all add: displayed_def)

lemma capture_step_stopped:
  assumes "\<not> streaming (sess v)"
  shows "moves_left (capture_at (capture_step adb codec v)) \<le> moves_left (capture_at v) - 1"
    and "frame_count (capture_step adb codec v)
           + (if capture_at (capture_step adb codec v) = InCycle then 1 else 0)
         \<le> frame_count v + (if capture_at v = InCycle then 1 else 0)"
proof -
  show "moves_left (capture_at (capture_step adb codec v)) \<le> moves_left (capture_at v) - 1"
  proof (cases "capture_at v")
    case InCycle
    then show ?thesis
      by (cases "capture_cycle adb codec v") (simp add: capture_step_def split: option.splits)
  qed (use assms in \<open>simp_all add: capture_step_def\<close>)
  show "frame_count (capture_step adb codec v)
           + (if capture_at (capture_step adb codec v) = InCycle then 1 else 0)
         \<le> frame_count v + (if capture_at v = InCycle then 1 else 0)"
  proof (cases "capture_at v")
    case InCycle
    have a: "capture_at (capture_step adb codec v) \<noteq> InCycle"
      using InCycle
      by (cases "capture_cycle adb codec v") (simp add: capture_step_def split: option.splits)
    have "frame_count (capture_step adb codec v) \<le> frame_count v + 1"
      by (simp add: capture_step_count split: option.splits)
    with a InCycle show ?thesis by simp
  qed (use assms in \<open>simp_all add: capture_step_def\<close>)
qed

lemma step_stopped:
  assumes "\<not> streaming (sess v)"
  shows "moves_left (capture_at (step adb codec a v))
           \<le> moves_left (capture_at v) - (if a = Capture then 1 else 0)"
    and "frame_count (step adb codec a v)
           + (if capture_at (step adb codec a v) = InCycle then 1 else 0)
         \<le> frame_count v + (if capture_at v = InCycle then 1 else 0)"
  using capture_step_stopped [OF assms, of adb codec]
  by (cases a; simp add: update_display_at update_display_count)+

lemma run_stopped:
  assumes "\<not> streaming (sess v)"
  shows "\<not> streaming (sess (run adb codec as v))
       \<and> displayed (run adb codec as v) = displayed v
       \<and> moves_left (capture_at (run adb codec as v))
           \<le> moves_left (capture_at v) - capture_moves as
       \<and> frame_count (run adb codec as v)
           + (if capture_at (run adb codec as v) = InCycle then 1 else 0)
           \<le> frame_count v + (if capture_at v = InCycle then 1 else 0)"
  using assms
proof (induction as arbitrary: v)
  case Nil
  then show ?case by (simp add: capture_moves_def)
next
  case (Cons a as)
  define v' where "v' = step adb codec a v"
  have s: "\<not> streaming (sess v')"
    unfolding v'_def using Cons.prems step_streaming by blast
  note ih = Cons.IH [OF s]
  have st1: "moves_left (capture_at v') \<le> moves_left (capture_at v) - (if a = Capture then 1 else 0)"
    and st2: "frame_count v' + (if capture_at v' = InCycle then 1 else 0)
         \<le> frame_count v + (if capture_at v = InCycle then 1 else 0)"
    unfolding v'_def using step_stopped [OF Cons.prems, of adb codec a] by blast+
  have d: "displayed v' = displayed v"
    unfolding v'_def using Cons.prems by (rule displayed_step_stopped)
  have cm: "capture_moves (a # as) = (if a = Capture then 1 else 0) + capture_moves as"
    by (simp add: capture_moves_def)
  have r: "run adb codec (a # as) v = run adb codec as v'"
    by (simp add: v'_def)
  have m: "moves_left (capture_at (run adb codec as v'))
      \<le> moves_left (capture_at v) - capture_moves (a # as)"
    using ih st1 unfolding cm by linarith
  have f: "frame_count (run adb codec as v')
           + (if capture_at (run adb codec as v') = InCycle then 1 else 0)
           \<le> frame_count v + (if capture_at v = InCycle then 1 else 0)"
    using ih st2 by linarith
  show ?case
    unfolding r using ih d m f by simp
qed

text \<open>
  Claim C7. From any state of the viewer in which the streaming flag is false, and
  whatever happens next (moves of the capture thread, scheduled calls of
  \<open>update_display\<close>, the user's actions): the flag stays false; the capture thread
  publishes at most one more frame, and none unless a cycle was in progress; it has left
  its loop after two of its own moves at the latest (the cycle in progress, then the test
  of the flag); and the window shows no further image, sets no status line and schedules
  no further call of \<open>update_display\<close>.
\<close>

theorem stop_flag_ends_both_units:
  assumes "\<not> streaming (sess v)"
  shows "\<not> streaming (sess (run adb codec as v))
       \<and> frame_count (run adb codec as v)
           \<le> frame_count v + (if capture_at v = InCycle then 1 else 0)
       \<and> (2 \<le> capture_moves as \<longrightarrow> capture_at (run adb codec as v) = Exited)
       \<and> displayed (run adb codec as v) = displayed v"
proof -
  note r = run_stopped [OF assms, of adb codec as]
  have "capture_at (run adb codec as v) = Exited" if "2 \<le> capture_moves as"
  proof -
    have "moves_left (capture_at v) \<le> 2" by (cases "capture_at v") simp_all
    with r that have "moves_left (capture_at (run adb codec as v)) = 0" by simp
    then show ?thesis by (cases "capture_at (run adb codec as v)") simp_all
  qed
  with r show ?thesis by simp
qed

theorem stop_flag_ends_both_units_witness:
  "\<not> streaming (sess v_stopped)
   \<and> capture_at (run adb_png png_codec [Capture, Tick ''12:00:00'', Capture, Capture] v_stopped)
       = Exited
   \<and> frame_count (run adb_png png_codec [Capture, Tick ''12:00:00'', Capture, Capture] v_stopped)
       \<le> 1
   \<and> displayed (run adb_png png_codec [Capture, Tick ''12:00:00'', Capture, Capture] v_stopped)
       = []"
proof -
  have a: "\<not> streaming (sess v_stopped)"
    by (simp add: v_stopped_def v_demo_def)
  have b: "capture_at v_stopped = InCycle" "frame_count v_stopped = 0" "displayed v_stopped = []"
    by (simp_all add: v_stopped_def v_demo_def displayed_def w_init_def)
  have c: "2 \<le> capture_moves [Capture, Tick ''12:00:00'', Capture, Capture]"
    by (simp add: capture_moves_def)
  from stop_flag_ends_both_units [OF a, of adb_png png_codec
      "[Capture, Tick ''12:00:00'', Capture, Capture]"] c
  show ?thesis by (simp only: a b) simp
qed

subsection \<open>Connecting over USB\<close>


















subsection \<open>Doubles that are hit exactly\<close>








subsection \<open>The size of the published frame\<close>





lemma parse_seven_tenths:
  "py_float ''0.7'' = Inr (Fin near_seven_tenths)"
  by code_simp






end
